theory Spec2Isabelle
  imports Main "HOL-Library.Word" "HOL-Library.Sublist"
begin

section \<open>The lux command line application (app/app.go)\<close>

text \<open>
  A shallow embedding of \<^verbatim>\<open>app/app.go\<close>: the \<^verbatim>\<open>Action\<close> closure of \<^verbatim>\<open>New\<close> and
  the function \<^verbatim>\<open>download\<close>. Go strings are byte sequences, so they are \<^typ>\<open>string\<close>.
  The packages \<^verbatim>\<open>extractors\<close>, \<^verbatim>\<open>downloader\<close>, \<^verbatim>\<open>request\<close>, \<^verbatim>\<open>utils\<close>, \<^verbatim>\<open>encoding/json\<close> and
  \<^verbatim>\<open>os\<close> are collaborators: their functions are fields of an environment record, and
  every call the application makes to an effectful one is appended to a trace of events.
\<close>

subsection \<open>Errors\<close>

text \<open>
  A Go \<^verbatim>\<open>error\<close> value; \<^verbatim>\<open>nil\<close> is \<open>None\<close> of \<^typ>\<open>'a option\<close>.
  \<open>errorString\<close> is what \<^verbatim>\<open>errors.New\<close> builds, \<open>ExitError\<close> what \<^verbatim>\<open>cli.Exit\<close> builds,
  \<open>ForeignError\<close> stands for the error types of the collaborators.
\<close>

datatype error =
    errorString string
  | ExitError string int
  | ForeignError string

definition errors_New :: "string \<Rightarrow> error" where
  "errors_New text = errorString text"

definition cli_Exit :: "string \<Rightarrow> int \<Rightarrow> error" where
  "cli_Exit message exitCode = ExitError message exitCode"

text \<open>The \<^verbatim>\<open>cli.ExitCoder\<close> interface: only the value of \<^verbatim>\<open>cli.Exit\<close> carries an exit code.\<close>

fun ExitCode :: "error \<Rightarrow> int option" where
  "ExitCode (ExitError message exitCode) = Some exitCode"
| "ExitCode (errorString text) = None"
| "ExitCode (ForeignError text) = None"

text \<open>
  The exit status the cli library gives a run from the value its \<^verbatim>\<open>Action\<close> returns:
  \<^verbatim>\<open>nil\<close> ends the process normally (status 0), an \<^verbatim>\<open>ExitCoder\<close> exits with its code. What
  happens to any other error is decided by the caller of \<^verbatim>\<open>Run\<close>, outside this file.
\<close>

definition exit_status :: "error option \<Rightarrow> int option" where
  "exit_status r = (case r of None \<Rightarrow> Some 0 | Some err \<Rightarrow> ExitCode err)"

subsection \<open>The flags of a run\<close>

text \<open>
  \<^verbatim>\<open>*cli.Context\<close>, read through \<^verbatim>\<open>c.Args().Slice()\<close>, \<^verbatim>\<open>c.Bool(name)\<close>, \<^verbatim>\<open>c.String(name)\<close> and
  \<^verbatim>\<open>c.Uint(name)\<close>. \<^verbatim>\<open>uint\<close> is taken to be 64 bits wide, and the conversion \<^verbatim>\<open>int(c.Uint(name))\<close>
  is then \<^term>\<open>sint\<close>.
\<close>

record Context =
  Args :: "string list"
  Bool :: "string \<Rightarrow> bool"
  String :: "string \<Rightarrow> string"
  Uint :: "string \<Rightarrow> 64 word"

subsection \<open>The option structs\<close>

record request_Options =
  req_RetryTimes :: int
  req_Cookie :: string
  req_UserAgent :: string
  req_Refer :: string
  req_Debug :: bool
  req_Silent :: bool

record extractors_Options =
  ext_Playlist :: bool
  ext_Items :: string
  ext_ItemStart :: int
  ext_ItemEnd :: int
  ext_ThreadNumber :: int
  ext_EpisodeTitleOnly :: bool
  ext_Cookie :: string
  ext_YoukuCcode :: string
  ext_YoukuCkey :: string
  ext_YoukuPassword :: string

record downloader_Options =
  dl_Silent :: bool
  dl_InfoOnly :: bool
  dl_Stream :: string
  dl_Refer :: string
  dl_OutputPath :: string
  dl_OutputName :: string
  dl_FileNameLength :: int
  dl_Caption :: bool
  dl_MultiThread :: bool
  dl_ThreadNumber :: int
  dl_RetryTimes :: int
  dl_ChunkSizeMB :: int
  dl_UseAria2RPC :: bool
  dl_Aria2Token :: string
  dl_Aria2Method :: string
  dl_Aria2Addr :: string

text \<open>
  The \<^verbatim>\<open>json.Encoder\<close> as \<^verbatim>\<open>download\<close> configures it: the writer it was made for, the
  arguments of \<^verbatim>\<open>SetIndent\<close> and of \<^verbatim>\<open>SetEscapeHTML\<close>.
\<close>

datatype Writer = os_Stdout | os_Stderr

record Encoder =
  enc_Writer :: Writer
  enc_IndentPrefix :: string
  enc_Indent :: string
  enc_EscapeHTML :: bool

text \<open>
  An element of the slice \<^verbatim>\<open>extractors.Extract\<close> returns. The application reads its field
  \<^verbatim>\<open>Err\<close> only; everything else is the payload \<open>'p\<close>, handed on as it is.
\<close>

record 'p Data =
  Err :: "error option"
  Payload :: 'p

subsection \<open>Events and the environment\<close>

datatype 'p event =
    EvVersionPrinter
  | EvSetOptions request_Options
  | EvExtract string extractors_Options
  | EvEncode Encoder "'p Data list"
  | EvDownload downloader_Options "'p Data"
  | EvPrintDownloadingError string
  | EvPrintError error

text \<open>
  \<open>EvPrintDownloadingError u\<close> is the line \<^verbatim>\<open>Downloading u error:\<close> written to \<^verbatim>\<open>color.Output\<close>,
  \<open>EvPrintError err\<close> the line \<^verbatim>\<open>fmt.Printf("%+v\n", err)\<close>.

  The collaborators. \<^verbatim>\<open>Extract\<close>, \<^verbatim>\<open>Download\<close> and \<^verbatim>\<open>Encode\<close> are called many times in a run
  and have state of their own (the network, the file system, standard output), so each
  takes the trace of the events before the call: two calls with the same arguments may
  answer differently. The three \<^verbatim>\<open>os\<close> functions and \<^verbatim>\<open>utils.ParseInputFile\<close> are called at most
  once in a run. \<open>'f\<close> is \<^verbatim>\<open>*os.File\<close>. \<open>os_Stat\<close> returns only the error of \<^verbatim>\<open>os.Stat\<close>,
  the one result the application reads.
\<close>

record ('p, 'f) env =
  os_Open :: "string \<Rightarrow> error + 'f"
  utils_ParseInputFile :: "'f \<Rightarrow> string \<Rightarrow> int \<Rightarrow> int \<Rightarrow> string list"
  os_Stat :: "string \<Rightarrow> error option"
  os_ReadFile :: "string \<Rightarrow> error + string"
  extractors_Extract :: "'p event list \<Rightarrow> string \<Rightarrow> extractors_Options \<Rightarrow> error + 'p Data list"
  downloader_Download :: "'p event list \<Rightarrow> downloader_Options \<Rightarrow> 'p Data \<Rightarrow> error option"
  json_Encode :: "'p event list \<Rightarrow> Encoder \<Rightarrow> 'p Data list \<Rightarrow> error option"

subsection \<open>strings.TrimSpace\<close>

text \<open>
  \<^verbatim>\<open>strings.TrimSpace\<close> of the Go standard library removes all leading and trailing white
  space, as Unicode defines it (\<^verbatim>\<open>unicode.IsSpace\<close>), from a UTF-8 string. The white space
  runes, each as its UTF-8 bytes: the six of ASCII, U+0085, U+00A0, U+1680, U+2000 to
  U+200A, U+2028, U+2029, U+202F, U+205F and U+3000. A byte sequence that is not valid
  UTF-8 decodes to \<^verbatim>\<open>RuneError\<close>, which is not white space, so trimming stops there.
\<close>

definition spaceRunes :: "string list" where
  "spaceRunes =
    [[CHR 0x09], [CHR 0x0A], [CHR 0x0B], [CHR 0x0C], [CHR 0x0D], [CHR 0x20],
     [CHR 0xC2, CHR 0x85], [CHR 0xC2, CHR 0xA0],
     [CHR 0xE1, CHR 0x9A, CHR 0x80],
     [CHR 0xE2, CHR 0x80, CHR 0x80], [CHR 0xE2, CHR 0x80, CHR 0x81],
     [CHR 0xE2, CHR 0x80, CHR 0x82], [CHR 0xE2, CHR 0x80, CHR 0x83],
     [CHR 0xE2, CHR 0x80, CHR 0x84], [CHR 0xE2, CHR 0x80, CHR 0x85],
     [CHR 0xE2, CHR 0x80, CHR 0x86], [CHR 0xE2, CHR 0x80, CHR 0x87],
     [CHR 0xE2, CHR 0x80, CHR 0x88], [CHR 0xE2, CHR 0x80, CHR 0x89],
     [CHR 0xE2, CHR 0x80, CHR 0x8A],
     [CHR 0xE2, CHR 0x80, CHR 0xA8], [CHR 0xE2, CHR 0x80, CHR 0xA9],
     [CHR 0xE2, CHR 0x80, CHR 0xAF],
     [CHR 0xE2, CHR 0x81, CHR 0x9F],
     [CHR 0xE3, CHR 0x80, CHR 0x80]]"

text \<open>
  \<open>dropRunes rs s\<close> removes from the front of \<open>s\<close> every leading occurrence of a byte
  sequence of \<open>rs\<close>. Trimming on the right reads the string backwards: the last rune of
  \<open>s\<close> is white space exactly when one of the encodings above is a suffix of \<open>s\<close>.
  \<^verbatim>\<open>TrimSpace\<close> trims on the left, then on the right.
\<close>

fun dropRunes :: "string list \<Rightarrow> string \<Rightarrow> string" where
  "dropRunes rs [] = []"
| "dropRunes rs (b # s) =
     (case find (\<lambda>r. prefix r (b # s)) rs of
        None \<Rightarrow> b # s
      | Some r \<Rightarrow> dropRunes rs (drop (length r - 1) s))"

definition TrimLeftSpace :: "string \<Rightarrow> string" where
  "TrimLeftSpace s = dropRunes spaceRunes s"

definition TrimRightSpace :: "string \<Rightarrow> string" where
  "TrimRightSpace s = rev (dropRunes (map rev spaceRunes) (rev s))"

definition strings_TrimSpace :: "string \<Rightarrow> string" where
  "strings_TrimSpace s = TrimRightSpace (TrimLeftSpace s)"

subsection \<open>The Action of the application: input aggregation and cookie\<close>

text \<open>
  Lines 208 to 217 of \<^verbatim>\<open>Action\<close>: the work list is the positional arguments, followed by
  what \<^verbatim>\<open>utils.ParseInputFile\<close> reads from the file named by the flag \<^verbatim>\<open>file\<close>. An error of
  \<^verbatim>\<open>os.Open\<close> is returned. (The deferred \<^verbatim>\<open>f.Close()\<close> has no result the code reads.)
\<close>

definition aggregate :: "('p, 'f) env \<Rightarrow> Context \<Rightarrow> error + string list" where
  "aggregate E c =
     (let args = Args c;
          file = String c ''file''
      in if file \<noteq> [] then
           (case os_Open E file of
              Inl err \<Rightarrow> Inl err
            | Inr f \<Rightarrow>
                (let fileItems = utils_ParseInputFile E f (String c ''items'')
                                   (sint (Uint c ''start'')) (sint (Uint c ''end''))
                 in Inr (args @ fileItems)))
         else Inr args)"

text \<open>
  Lines 223 to 234: a non-empty cookie for which \<^verbatim>\<open>os.Stat\<close> succeeds is replaced by the
  trimmed contents of that file; an error of \<^verbatim>\<open>os.ReadFile\<close> is returned.
\<close>

definition resolve_cookie :: "('p, 'f) env \<Rightarrow> string \<Rightarrow> error + string" where
  "resolve_cookie E cookie =
     (if cookie \<noteq> [] then
        (case os_Stat E cookie of
           None \<Rightarrow>
             (case os_ReadFile E cookie of
                Inl err \<Rightarrow> Inl err
              | Inr data \<Rightarrow> Inr (strings_TrimSpace data))
         | Some fileErr \<Rightarrow> Inr cookie)
      else Inr cookie)"

subsection \<open>download: one target\<close>

text \<open>The three option structs, as lines 236 to 243, 270 to 281 and 299 to 316 fill them.\<close>

definition request_options :: "Context \<Rightarrow> string \<Rightarrow> request_Options" where
  "request_options c cookie =
     \<lparr> req_RetryTimes = sint (Uint c ''retry''),
       req_Cookie = cookie,
       req_UserAgent = String c ''user-agent'',
       req_Refer = String c ''refer'',
       req_Debug = Bool c ''debug'',
       req_Silent = Bool c ''silent'' \<rparr>"

definition extractor_options :: "Context \<Rightarrow> extractors_Options" where
  "extractor_options c =
     \<lparr> ext_Playlist = Bool c ''playlist'',
       ext_Items = String c ''items'',
       ext_ItemStart = sint (Uint c ''start''),
       ext_ItemEnd = sint (Uint c ''end''),
       ext_ThreadNumber = sint (Uint c ''thread''),
       ext_EpisodeTitleOnly = Bool c ''episode-title-only'',
       ext_Cookie = String c ''cookie'',
       ext_YoukuCcode = String c ''youku-ccode'',
       ext_YoukuCkey = String c ''youku-ckey'',
       ext_YoukuPassword = String c ''youku-password'' \<rparr>"

definition downloader_options :: "Context \<Rightarrow> downloader_Options" where
  "downloader_options c =
     \<lparr> dl_Silent = Bool c ''silent'',
       dl_InfoOnly = Bool c ''info'',
       dl_Stream = String c ''stream-format'',
       dl_Refer = String c ''refer'',
       dl_OutputPath = String c ''output-path'',
       dl_OutputName = String c ''output-name'',
       dl_FileNameLength = sint (Uint c ''file-name-length''),
       dl_Caption = Bool c ''caption'',
       dl_MultiThread = Bool c ''multi-thread'',
       dl_ThreadNumber = sint (Uint c ''thread''),
       dl_RetryTimes = sint (Uint c ''retry''),
       dl_ChunkSizeMB = sint (Uint c ''chunk-size''),
       dl_UseAria2RPC = Bool c ''aria2'',
       dl_Aria2Token = String c ''aria2-token'',
       dl_Aria2Method = String c ''aria2-method'',
       dl_Aria2Addr = String c ''aria2-addr'' \<rparr>"

text \<open>The encoder of lines 289 to 291.\<close>

definition json_encoder :: Encoder where
  "json_encoder =
     \<lparr> enc_Writer = os_Stdout,
       enc_IndentPrefix = [],
       enc_Indent = [CHR 0x09],
       enc_EscapeHTML = False \<rparr>"

text \<open>
  The loop of lines 318 to 328 over the extracted items, with the slice \<^verbatim>\<open>errors\<close> and the
  trace as its state. An item whose \<^verbatim>\<open>Err\<close> is set is recorded and skipped
  (\<^verbatim>\<open>continue\<close>); any other item is handed to \<^verbatim>\<open>Download\<close>, whose error is recorded.
\<close>

fun download_items ::
  "('p, 'f) env \<Rightarrow> downloader_Options \<Rightarrow> 'p Data list \<Rightarrow> error list \<Rightarrow> 'p event list
     \<Rightarrow> error list \<times> 'p event list" where
  "download_items E opts [] errors tr = (errors, tr)"
| "download_items E opts (item # rest) errors tr =
     (case Err item of
        Some e \<Rightarrow> download_items E opts rest (errors @ [e]) tr
      | None \<Rightarrow>
          (case downloader_Download E tr opts item of
             Some err \<Rightarrow> download_items E opts rest (errors @ [err]) (tr @ [EvDownload opts item])
           | None \<Rightarrow> download_items E opts rest errors (tr @ [EvDownload opts item])))"

text \<open>
  \<^verbatim>\<open>download\<close> (lines 269 to 333): the returned error and the trace after the call.
\<close>

definition download ::
  "('p, 'f) env \<Rightarrow> Context \<Rightarrow> string \<Rightarrow> 'p event list \<Rightarrow> error option \<times> 'p event list" where
  "download E c videoURL tr =
     (let opts = extractor_options c;
          tr1 = tr @ [EvExtract videoURL opts]
      in case extractors_Extract E tr videoURL opts of
           Inl err \<Rightarrow> (Some err, tr1)
         | Inr data \<Rightarrow>
             if Bool c ''json'' then
               (let e = json_encoder
                in case json_Encode E tr1 e data of
                     Some err \<Rightarrow> (Some err, tr1 @ [EvEncode e data])
                   | None \<Rightarrow> (None, tr1 @ [EvEncode e data]))
             else
               (let defaultDownloader = downloader_options c;
                    (errors, tr2) = download_items E defaultDownloader data [] tr1
                in if length errors \<noteq> 0 then (Some (hd errors), tr2) else (None, tr2)))"

subsection \<open>The Action of the application: the batch\<close>

text \<open>
  The body of the loop of lines 246 to 256 for one target, on the flag \<^verbatim>\<open>isErr\<close> and the
  trace; then the loop.
\<close>

definition download_target ::
  "('p, 'f) env \<Rightarrow> Context \<Rightarrow> string \<Rightarrow> bool \<times> 'p event list \<Rightarrow> bool \<times> 'p event list" where
  "download_target E c videoURL s =
     (case download E c videoURL (snd s) of
        (Some err, tr) \<Rightarrow> (True, tr @ [EvPrintDownloadingError videoURL, EvPrintError err])
      | (None, tr) \<Rightarrow> (fst s, tr))"

fun download_all ::
  "('p, 'f) env \<Rightarrow> Context \<Rightarrow> string list \<Rightarrow> bool \<times> 'p event list \<Rightarrow> bool \<times> 'p event list" where
  "download_all E c [] s = s"
| "download_all E c (videoURL # rest) s = download_all E c rest (download_target E c videoURL s)"

text \<open>Lines 245 to 260: the loop from \<^verbatim>\<open>isErr = false\<close>, and the value returned after it.\<close>

definition run_batch ::
  "('p, 'f) env \<Rightarrow> Context \<Rightarrow> string list \<Rightarrow> 'p event list \<Rightarrow> error option \<times> 'p event list" where
  "run_batch E c args tr =
     (case download_all E c args (False, tr) of
        (isErr, tr') \<Rightarrow> if isErr then (Some (cli_Exit [] 1), tr') else (None, tr'))"

text \<open>The whole \<^verbatim>\<open>Action\<close> (lines 201 to 261).\<close>

definition Action ::
  "('p, 'f) env \<Rightarrow> Context \<Rightarrow> 'p event list \<Rightarrow> error option \<times> 'p event list" where
  "Action E c tr =
     (let tr0 = (if Bool c ''debug'' then tr @ [EvVersionPrinter] else tr)
      in case aggregate E c of
           Inl err \<Rightarrow> (Some err, tr0)
         | Inr args \<Rightarrow>
             if length args < 1 then (Some (errors_New ''too few arguments''), tr0)
             else
               (case resolve_cookie E (String c ''cookie'') of
                  Inl err \<Rightarrow> (Some err, tr0)
                | Inr cookie \<Rightarrow>
                    run_batch E c args (tr0 @ [EvSetOptions (request_options c cookie)])))"

subsection \<open>What a run did, read off the outcomes\<close>

text \<open>
  The outcome of every extracted item, in the order of the items: the error the item
  carries, or else what \<^verbatim>\<open>Download\<close> answers for it when it is called after the downloads
  of the items before it.
\<close>

fun item_outcomes ::
  "('p, 'f) env \<Rightarrow> downloader_Options \<Rightarrow> 'p event list \<Rightarrow> 'p Data list \<Rightarrow> error option list" where
  "item_outcomes E opts tr [] = []"
| "item_outcomes E opts tr (item # rest) =
     (case Err item of
        Some e \<Rightarrow> Some e # item_outcomes E opts tr rest
      | None \<Rightarrow>
          downloader_Download E tr opts item
            # item_outcomes E opts (tr @ [EvDownload opts item]) rest)"

text \<open>The first error of a list of outcomes, \<open>None\<close> when there is none.\<close>

fun first_error :: "error option list \<Rightarrow> error option" where
  "first_error [] = None"
| "first_error (None # rs) = first_error rs"
| "first_error (Some e # rs) = Some e"

text \<open>The items that carry no error of their own.\<close>

definition valid_items :: "'p Data list \<Rightarrow> 'p Data list" where
  "valid_items data = filter (\<lambda>item. Err item = None) data"

text \<open>The two lines the batch prints for a failing target.\<close>

fun diagnostic :: "string \<times> error option \<Rightarrow> 'p event list" where
  "diagnostic (videoURL, None) = []"
| "diagnostic (videoURL, Some err) = [EvPrintDownloadingError videoURL, EvPrintError err]"

text \<open>
  The outcome of every target of a batch, in the order of the targets: what \<^verbatim>\<open>download\<close>
  returns for it when it is called after everything the targets before it caused.
\<close>

fun target_outcomes ::
  "('p, 'f) env \<Rightarrow> Context \<Rightarrow> string list \<Rightarrow> 'p event list \<Rightarrow> (string \<times> error option) list" where
  "target_outcomes E c [] tr = []"
| "target_outcomes E c (videoURL # rest) tr =
     (videoURL, fst (download E c videoURL tr))
       # target_outcomes E c rest
           (snd (download E c videoURL tr) @ diagnostic (videoURL, fst (download E c videoURL tr)))"

text \<open>Kinds of events.\<close>

fun is_Extract :: "'p event \<Rightarrow> bool" where
  "is_Extract (EvExtract videoURL opts) = True"
| "is_Extract ev = False"

fun is_Download :: "'p event \<Rightarrow> bool" where
  "is_Download (EvDownload opts item) = True"
| "is_Download ev = False"

fun is_Encode :: "'p event \<Rightarrow> bool" where
  "is_Encode (EvEncode e data) = True"
| "is_Encode ev = False"

fun is_Print :: "'p event \<Rightarrow> bool" where
  "is_Print (EvPrintDownloadingError videoURL) = True"
| "is_Print (EvPrintError err) = True"
| "is_Print ev = False"

text \<open>An event of the processing of a target: a call of one of the three collaborators.\<close>

definition is_target_event :: "'p event \<Rightarrow> bool" where
  "is_target_event ev = (is_Extract ev \<or> is_Download ev \<or> is_Encode ev)"

subsection \<open>Example runs\<close>

text \<open>
  A context with the given positional arguments, \<^verbatim>\<open>json\<close> flag, \<^verbatim>\<open>cookie\<close> and \<^verbatim>\<open>file\<close>;
  every other flag is false, empty or zero.
\<close>

definition example_Context :: "string list \<Rightarrow> bool \<Rightarrow> string \<Rightarrow> string \<Rightarrow> Context" where
  "example_Context args json cookie file =
     \<lparr> Args = args,
       Bool = (\<lambda>name. name = ''json'' \<and> json),
       String = (\<lambda>name. if name = ''cookie'' then cookie else if name = ''file'' then file else []),
       Uint = (\<lambda>name. 0) \<rparr>"

definition example_items :: "nat Data list" where
  "example_items =
     [\<lparr> Err = None, Payload = 1 \<rparr>,
      \<lparr> Err = Some (ForeignError ''item 2''), Payload = 2 \<rparr>,
      \<lparr> Err = None, Payload = 3 \<rparr>,
      \<lparr> Err = Some (ForeignError ''item 4''), Payload = 4 \<rparr>]"

text \<open>
  An environment: the file \<^verbatim>\<open>urls.txt\<close> opens and lists two targets; \<^verbatim>\<open>cookies.txt\<close> exists and
  holds a cookie between white space, \<^verbatim>\<open>locked.txt\<close> exists and cannot be read; the target
  \<^verbatim>\<open>bad\<close> fails to extract, \<^verbatim>\<open>empty\<close> has no item, \<^verbatim>\<open>mixed\<close> has the four items above, any
  other target has one item; the download of payload 3 fails; writing to standard
  output fails when \<open>stdout_closed\<close>.
\<close>

definition example_env :: "bool \<Rightarrow> (nat, nat) env" where
  "example_env stdout_closed =
     \<lparr> os_Open = (\<lambda>name. if name = ''urls.txt'' then Inr 7 else Inl (ForeignError ''open'')),
       utils_ParseInputFile = (\<lambda>f items start end. [''good'', ''mixed'']),
       os_Stat = (\<lambda>name. if name = ''cookies.txt'' \<or> name = ''locked.txt'' then None
                          else Some (ForeignError ''stat'')),
       os_ReadFile = (\<lambda>name. if name = ''cookies.txt'' then Inr (''  token=xyz'' @ [CHR 0x0A])
                              else Inl (ForeignError ''read'')),
       extractors_Extract = (\<lambda>tr videoURL opts.
          if videoURL = ''bad'' then Inl (ForeignError ''extract'')
          else if videoURL = ''empty'' then Inr []
          else if videoURL = ''mixed'' then Inr example_items
          else Inr [\<lparr> Err = None, Payload = 5 \<rparr>]),
       downloader_Download = (\<lambda>tr opts item.
          if Payload item = 3 then Some (ForeignError ''download'') else None),
       json_Encode = (\<lambda>tr e data. if stdout_closed then Some (ForeignError ''write'') else None) \<rparr>"

section \<open>Properties\<close>

subsection \<open>The loop over the items\<close>

lemma download_items_eq:
  "download_items E opts data errors tr =
     (errors @ List.map_filter id (item_outcomes E opts tr data),
      tr @ map (EvDownload opts) (valid_items data))"
  by (induction data arbitrary: errors tr)
     (auto simp: valid_items_def List.map_filter_simps split: option.splits)

lemma first_error_map_filter:
  "first_error rs = (case List.map_filter id rs of [] \<Rightarrow> None | e # es \<Rightarrow> Some e)"
  by (induction rs rule: first_error.induct) (auto simp: List.map_filter_simps)

lemma length_item_outcomes: "length (item_outcomes E opts tr data) = length data"
  by (induction data arbitrary: tr) (auto split: option.splits)

lemma first_error_None: "first_error rs = None \<longleftrightarrow> (\<forall>r \<in> set rs. r = None)"
  by (induction rs rule: first_error.induct) auto

lemma first_error_Some:
  "first_error rs = Some e \<longleftrightarrow> (\<exists>k < length rs. rs ! k = Some e \<and> (\<forall>j < k. rs ! j = None))"
proof (induction rs rule: first_error.induct)
  case 1
  show ?case by simp
next
  case (2 rs)
  have "(\<exists>k < length (None # rs). (None # rs) ! k = Some e \<and> (\<forall>j < k. (None # rs) ! j = None))
        \<longleftrightarrow> (\<exists>k < length rs. rs ! k = Some e \<and> (\<forall>j < k. rs ! j = None))"
    (is "?L \<longleftrightarrow> ?R")
  proof
    assume ?L
    then obtain k where k: "k < length (None # rs)" "(None # rs) ! k = Some e"
      "\<forall>j < k. (None # rs) ! j = None" by blast
    from k(2) obtain k' where k': "k = Suc k'" by (cases k) auto
    have "\<forall>j < k'. rs ! j = None"
    proof (intro allI impI)
      fix j assume "j < k'"
      then have "Suc j < k" using k' by simp
      with k(3) have "(None # rs) ! Suc j = None" by blast
      then show "rs ! j = None" by simp
    qed
    with k k' show ?R by auto
  next
    assume ?R
    then obtain k where k: "k < length rs" "rs ! k = Some e" "\<forall>j < k. rs ! j = None" by blast
    have "\<forall>j < Suc k. (None # rs) ! j = None"
      using k(3) by (auto simp: nth_Cons split: nat.splits)
    with k show ?L by (intro exI[of _ "Suc k"]) auto
  qed
  with 2 show ?case by simp
next
  case (3 e' rs)
  have "(\<exists>k < length (Some e' # rs). (Some e' # rs) ! k = Some e \<and> (\<forall>j < k. (Some e' # rs) ! j = None))
        \<longleftrightarrow> e' = e" (is "?L \<longleftrightarrow> _")
  proof
    assume ?L
    then obtain k where k: "(Some e' # rs) ! k = Some e" "\<forall>j < k. (Some e' # rs) ! j = None" by blast
    have "k = 0"
    proof (rule ccontr)
      assume "k \<noteq> 0"
      then have "0 < k" by simp
      with k(2) have "(Some e' # rs) ! 0 = None" by blast
      then show False by simp
    qed
    with k(1) show "e' = e" by simp
  next
    assume "e' = e"
    then show ?L by (intro exI[of _ 0]) simp
  qed
  then show ?case by simp
qed

lemma download_normal:
  assumes "\<not> Bool c ''json''" "extractors_Extract E tr videoURL (extractor_options c) = Inr data"
  shows "download E c videoURL tr =
          (first_error (item_outcomes E (downloader_options c) (tr @ [EvExtract videoURL (extractor_options c)]) data),
           tr @ EvExtract videoURL (extractor_options c) # map (EvDownload (downloader_options c)) (valid_items data))"
  using assms
  by (auto simp: download_def Let_def download_items_eq first_error_map_filter split: list.splits)

lemma download_trace:
  "\<exists>rest. snd (download E c videoURL tr) = tr @ EvExtract videoURL (extractor_options c) # rest
      \<and> filter is_Extract rest = [] \<and> filter is_Print rest = []"
proof (cases "extractors_Extract E tr videoURL (extractor_options c)")
  case (Inl err)
  then show ?thesis by (simp add: download_def Let_def)
next
  case (Inr data)
  show ?thesis
  proof (cases "Bool c ''json''")
    case True
    with Inr show ?thesis by (simp add: download_def Let_def split: option.splits)
  next
    case False
    have "filter is_Extract (map (EvDownload (downloader_options c)) (valid_items data)) = []"
      "filter is_Print (map (EvDownload (downloader_options c)) (valid_items data)) = []"
      by (simp_all add: filter_empty_conv)
    with download_normal[OF False Inr] show ?thesis by simp
  qed
qed

lemma download_target_eq:
  "download_target E c videoURL (b, tr) =
     (b \<or> fst (download E c videoURL tr) \<noteq> None,
      snd (download E c videoURL tr) @ diagnostic (videoURL, fst (download E c videoURL tr)))"
  by (cases "download E c videoURL tr") (auto simp: download_target_def split: option.splits)

lemma target_outcomes_targets: "map fst (target_outcomes E c targets tr) = targets"
  by (induction targets arbitrary: tr) simp_all

lemma download_all_flag:
  "fst (download_all E c targets (b, tr)) =
     (b \<or> (\<exists>out \<in> set (target_outcomes E c targets tr). snd out \<noteq> None))"
  by (induction targets arbitrary: b tr) (auto simp: download_target_eq)

lemma filter_diagnostic: "filter is_Extract (diagnostic out) = []" "filter is_Print (diagnostic out) = diagnostic out"
  by (cases out rule: diagnostic.cases; simp)+

lemma download_all_trace:
  "\<exists>added. snd (download_all E c targets (b, tr)) = tr @ added
      \<and> filter is_Extract added = map (\<lambda>videoURL. EvExtract videoURL (extractor_options c)) targets
      \<and> filter is_Print added = concat (map diagnostic (target_outcomes E c targets tr))"
proof (induction targets arbitrary: b tr)
  case Nil
  show ?case by simp
next
  case (Cons videoURL rest)
  obtain r where r: "snd (download E c videoURL tr) = tr @ EvExtract videoURL (extractor_options c) # r"
    "filter is_Extract r = []" "filter is_Print r = []"
    using download_trace by blast
  define out where "out = (videoURL, fst (download E c videoURL tr))"
  define tr' where "tr' = snd (download E c videoURL tr) @ diagnostic out"
  obtain added where a: "snd (download_all E c rest (b \<or> fst (download E c videoURL tr) \<noteq> None, tr')) = tr' @ added"
    "filter is_Extract added = map (\<lambda>videoURL. EvExtract videoURL (extractor_options c)) rest"
    "filter is_Print added = concat (map diagnostic (target_outcomes E c rest tr'))"
    using Cons.IH by blast
  have "snd (download_all E c (videoURL # rest) (b, tr))
          = tr @ (EvExtract videoURL (extractor_options c) # r @ diagnostic out @ added)"
    using a(1) r(1) by (simp add: download_target_eq tr'_def out_def)
  moreover have "filter is_Extract (EvExtract videoURL (extractor_options c) # r @ diagnostic out @ added)
          = map (\<lambda>videoURL. EvExtract videoURL (extractor_options c)) (videoURL # rest)"
    using a(2) r(2) by (simp add: filter_diagnostic)
  moreover have "filter is_Print (EvExtract videoURL (extractor_options c) # r @ diagnostic out @ added)
          = concat (map diagnostic (target_outcomes E c (videoURL # rest) tr))"
    using a(3) r(3) by (simp add: filter_diagnostic tr'_def out_def)
  ultimately show ?case by blast
qed

lemma item_outcomes_nth:
  "k < length data \<Longrightarrow>
     item_outcomes E opts tr data ! k =
       (case Err (data ! k) of
          Some e \<Rightarrow> Some e
        | None \<Rightarrow> downloader_Download E (tr @ map (EvDownload opts) (valid_items (take k data)))
                    opts (data ! k))"
proof (induction data arbitrary: tr k)
  case Nil
  then show ?case by simp
next
  case (Cons item rest)
  show ?case
  proof (cases k)
    case 0
    then show ?thesis by (simp add: valid_items_def split: option.splits)
  next
    case (Suc k')
    with Cons.prems have "k' < length rest" by simp
    from Cons.IH[OF this] Suc show ?thesis
      by (simp add: valid_items_def split: option.splits)
  qed
qed

lemma download_extract_failure:
  "extractors_Extract E tr videoURL (extractor_options c) = Inl err \<Longrightarrow>
     download E c videoURL tr = (Some err, tr @ [EvExtract videoURL (extractor_options c)])"
  by (simp add: download_def Let_def)

lemma download_json:
  "Bool c ''json'' \<Longrightarrow> extractors_Extract E tr videoURL (extractor_options c) = Inr data \<Longrightarrow>
     download E c videoURL tr =
       (json_Encode E (tr @ [EvExtract videoURL (extractor_options c)]) json_encoder data,
        tr @ [EvExtract videoURL (extractor_options c), EvEncode json_encoder data])"
  by (simp add: download_def Let_def split: option.splits)

lemma filter_is_Download_map: "filter is_Download (map (EvDownload opts) items) = map (EvDownload opts) items"
  by (induction items) simp_all

subsection \<open>Trimming white space\<close>

lemma TrimSpace_example: "strings_TrimSpace (''  token=xyz'' @ [CHR 0x0A]) = ''token=xyz''"
  by (simp add: strings_TrimSpace_def TrimLeftSpace_def TrimRightSpace_def spaceRunes_def)

lemma dropRunes_no_leading:
  "[] \<notin> set rs \<Longrightarrow> r \<in> set rs \<Longrightarrow> \<not> prefix r (dropRunes rs s)"
proof (induction rs s rule: dropRunes.induct)
  case (1 rs)
  then show ?case by auto
next
  case (2 rs b s)
  show ?case
  proof (cases "find (\<lambda>r. prefix r (b # s)) rs")
    case None
    then have "\<not> prefix r (b # s)" using 2(3) by (simp add: find_None_iff)
    with None show ?thesis by simp
  next
    case (Some r')
    with 2 show ?thesis by simp
  qed
qed

lemma dropRunes_decompose:
  "[] \<notin> set rs \<Longrightarrow> \<exists>ws. set ws \<subseteq> set rs \<and> s = concat ws @ dropRunes rs s"
proof (induction rs s rule: dropRunes.induct)
  case (1 rs)
  show ?case by (rule exI[of _ "[]"]) simp
next
  case (2 rs b s)
  show ?case
  proof (cases "find (\<lambda>r. prefix r (b # s)) rs")
    case None
    show ?thesis by (rule exI[of _ "[]"]) (simp add: None)
  next
    case (Some r)
    then have r: "r \<in> set rs" "prefix r (b # s)"
      by (auto simp: find_Some_iff)
    with 2(2) have ne: "r \<noteq> []" by auto
    from r(2) ne obtain r' where r': "r = b # r'" "prefix r' s"
      by (cases r) auto
    then have s: "s = r' @ drop (length r - 1) s"
      by (auto simp: prefix_def)
    from 2(1)[OF Some 2(2)] obtain ws where ws: "set ws \<subseteq> set rs"
      "drop (length r - 1) s = concat ws @ dropRunes rs (drop (length r - 1) s)" by blast
    have "b # s = concat (r # ws) @ dropRunes rs (b # s)"
      using s ws(2) r'(1) Some by simp
    moreover have "set (r # ws) \<subseteq> set rs" using r(1) ws(1) by simp
    ultimately show ?thesis by blast
  qed
qed

lemma spaceRunes_nonempty: "[] \<notin> set spaceRunes" "[] \<notin> set (map rev spaceRunes)"
  by (simp_all add: spaceRunes_def)

lemma TrimRightSpace_decompose:
  "\<exists>ws. set ws \<subseteq> set spaceRunes \<and> s = TrimRightSpace s @ concat ws"
proof -
  from dropRunes_decompose[OF spaceRunes_nonempty(2), of "rev s"]
  obtain ws where ws: "set ws \<subseteq> set (map rev spaceRunes)"
    "rev s = concat ws @ dropRunes (map rev spaceRunes) (rev s)" by blast
  from ws(2) have "rev (rev s) = rev (concat ws @ dropRunes (map rev spaceRunes) (rev s))" by simp
  then have "s = TrimRightSpace s @ concat (map rev (rev ws))"
    by (simp add: TrimRightSpace_def rev_concat)
  moreover have "set (map rev (rev ws)) \<subseteq> set spaceRunes"
    using ws(1) by auto
  ultimately show ?thesis by blast
qed

lemma TrimRightSpace_no_trailing:
  assumes "r \<in> set spaceRunes" shows "\<not> suffix r (TrimRightSpace s)"
proof -
  from assms have "rev r \<in> set (map rev spaceRunes)" by simp
  from dropRunes_no_leading[OF spaceRunes_nonempty(2) this, of "rev s"]
  show ?thesis by (simp add: TrimRightSpace_def suffix_to_prefix)
qed

lemma strings_TrimSpace_strips:
  "(\<forall>r \<in> set spaceRunes. \<not> prefix r (strings_TrimSpace s) \<and> \<not> suffix r (strings_TrimSpace s))
   \<and> (\<exists>before after. set before \<subseteq> set spaceRunes \<and> set after \<subseteq> set spaceRunes
          \<and> s = concat before @ strings_TrimSpace s @ concat after)"
proof -
  obtain ws1 where 1: "set ws1 \<subseteq> set spaceRunes" "s = concat ws1 @ TrimLeftSpace s"
    using dropRunes_decompose[OF spaceRunes_nonempty(1), of s] by (auto simp: TrimLeftSpace_def)
  obtain ws2 where 2: "set ws2 \<subseteq> set spaceRunes"
    "TrimLeftSpace s = strings_TrimSpace s @ concat ws2"
    using TrimRightSpace_decompose[of "TrimLeftSpace s"] by (auto simp: strings_TrimSpace_def)
  have "\<not> prefix r (strings_TrimSpace s)" if r: "r \<in> set spaceRunes" for r
  proof
    assume "prefix r (strings_TrimSpace s)"
    then have "prefix r (TrimLeftSpace s)" using 2(2) by (metis prefix_prefix)
    with dropRunes_no_leading[OF spaceRunes_nonempty(1) r, of s] show False
      by (simp add: TrimLeftSpace_def)
  qed
  moreover have "\<not> suffix r (strings_TrimSpace s)" if "r \<in> set spaceRunes" for r
    using TrimRightSpace_no_trailing[OF that] by (simp add: strings_TrimSpace_def)
  moreover have "s = concat ws1 @ strings_TrimSpace s @ concat ws2"
    using 1(2) 2(2) by simp
  ultimately show ?thesis using 1(1) 2(1) by blast
qed

subsection \<open>The Action up to the batch\<close>

lemma Action_batch:
  assumes "aggregate E c = Inr targets" and "targets \<noteq> []"
    and "resolve_cookie E (String c ''cookie'') = Inr cookie"
  shows "Action E c tr =
           run_batch E c targets
             ((if Bool c ''debug'' then tr @ [EvVersionPrinter] else tr)
                @ [EvSetOptions (request_options c cookie)])"
  using assms by (cases targets) (simp_all add: Action_def Let_def)

lemma Action_no_batch:
  assumes "aggregate E c = Inl err' \<or> aggregate E c = Inr []
             \<or> resolve_cookie E (String c ''cookie'') = Inl err"
  shows "fst (Action E c tr) \<noteq> None
       \<and> snd (Action E c tr) = (if Bool c ''debug'' then tr @ [EvVersionPrinter] else tr)"
  using assms by (auto simp: Action_def Let_def split: sum.splits)

lemma run_batch_extracts:
  "filter is_Extract (snd (run_batch E c targets tr)) =
     filter is_Extract tr @ map (\<lambda>videoURL. EvExtract videoURL (extractor_options c)) targets"
proof -
  obtain isErr tr' where d: "download_all E c targets (False, tr) = (isErr, tr')"
    by (cases "download_all E c targets (False, tr)")
  from download_all_trace[of E c targets False tr] d obtain added where
    "tr' = tr @ added"
    "filter is_Extract added = map (\<lambda>videoURL. EvExtract videoURL (extractor_options c)) targets"
    by auto
  then show ?thesis by (simp add: run_batch_def d)
qed

section \<open>The claims\<close>

text \<open>
  C3. When the extraction call of a target fails, \<^verbatim>\<open>download\<close> returns exactly that error;
  the only event of the call is the extraction itself, so the download collaborator (and
  the encoder) is never invoked for that target.
\<close>

theorem C3_extraction_failure_is_returned:
  assumes "extractors_Extract E tr videoURL (extractor_options c) = Inl err"
  shows "download E c videoURL tr = (Some err, tr @ [EvExtract videoURL (extractor_options c)])
       \<and> filter is_Download (snd (download E c videoURL tr)) = filter is_Download tr
       \<and> filter is_Encode (snd (download E c videoURL tr)) = filter is_Encode tr"
  using assms by (simp add: download_def Let_def)

theorem C3_extraction_failure_witness:
  "extractors_Extract (example_env False) [] ''bad''
      (extractor_options (example_Context [''bad''] False [] [])) = Inl (ForeignError ''extract'')
   \<and> fst (download (example_env False) (example_Context [''bad''] False [] []) ''bad'' [])
        = Some (ForeignError ''extract'')
   \<and> filter is_Download (snd (download (example_env False) (example_Context [''bad''] False [] []) ''bad'' [])) = []"
proof -
  have h: "extractors_Extract (example_env False) [] ''bad''
      (extractor_options (example_Context [''bad''] False [] [])) = Inl (ForeignError ''extract'')"
    by (simp add: example_env_def)
  from C3_extraction_failure_is_returned[OF h] h show ?thesis by simp
qed

text \<open>
  C8. In json mode, for a target whose extraction succeeds, \<^verbatim>\<open>download\<close> makes one call of
  the encoder on the raw extraction result and none of the download collaborator. The
  encoder writes to standard output, indents with a tab (no prefix) and does not escape
  HTML. What the encoder returns is what \<^verbatim>\<open>download\<close> returns, so a failure to serialize
  reaches the batch as any failure of a target does: the flag \<^verbatim>\<open>isErr\<close> is set and the two
  diagnostic lines are printed.
\<close>

theorem C8_json_mode_serializes_instead_of_downloading:
  assumes "Bool c ''json''"
    and "extractors_Extract E tr videoURL (extractor_options c) = Inr data"
  shows "download E c videoURL tr =
           (json_Encode E (tr @ [EvExtract videoURL (extractor_options c)]) json_encoder data,
            tr @ [EvExtract videoURL (extractor_options c), EvEncode json_encoder data])
       \<and> filter is_Download (snd (download E c videoURL tr)) = filter is_Download tr
       \<and> enc_Writer json_encoder = os_Stdout
       \<and> enc_IndentPrefix json_encoder = []
       \<and> enc_Indent json_encoder = [CHR 0x09]
       \<and> \<not> enc_EscapeHTML json_encoder
       \<and> (\<forall>err. json_Encode E (tr @ [EvExtract videoURL (extractor_options c)]) json_encoder data = Some err
            \<longrightarrow> download_target E c videoURL (isErr, tr) =
                  (True, tr @ [EvExtract videoURL (extractor_options c), EvEncode json_encoder data,
                               EvPrintDownloadingError videoURL, EvPrintError err]))"
  using download_json[OF assms]
  by (simp add: json_encoder_def download_target_def)

theorem C8_json_mode_witness:
  "Bool (example_Context [''mixed''] True [] []) ''json''
   \<and> extractors_Extract (example_env True) [] ''mixed''
        (extractor_options (example_Context [''mixed''] True [] [])) = Inr example_items
   \<and> fst (download (example_env True) (example_Context [''mixed''] True [] []) ''mixed'' [])
        = Some (ForeignError ''write'')
   \<and> filter is_Download (snd (download (example_env True) (example_Context [''mixed''] True [] []) ''mixed'' [])) = []
   \<and> download_target (example_env True) (example_Context [''mixed''] True [] []) ''mixed'' (False, [])
        = (True, [EvExtract ''mixed'' (extractor_options (example_Context [''mixed''] True [] [])),
                  EvEncode json_encoder example_items,
                  EvPrintDownloadingError ''mixed'', EvPrintError (ForeignError ''write'')])"
proof -
  have j: "Bool (example_Context [''mixed''] True [] []) ''json''"
    by (simp add: example_Context_def)
  have x: "extractors_Extract (example_env True) [] ''mixed''
        (extractor_options (example_Context [''mixed''] True [] [])) = Inr example_items"
    by (simp add: example_env_def)
  have w: "json_Encode (example_env True)
        ([] @ [EvExtract ''mixed'' (extractor_options (example_Context [''mixed''] True [] []))])
        json_encoder example_items = Some (ForeignError ''write'')"
    by (simp add: example_env_def)
  from C8_json_mode_serializes_instead_of_downloading[OF j x, of False] j x w
  show ?thesis by simp
qed

text \<open>
  C10. In json mode the errors the extracted items carry are not read: whenever the
  extraction and the serialization of a target succeed, \<^verbatim>\<open>download\<close> returns no error,
  whatever the items are. With the same extraction result and json mode off, a non-empty
  result all of whose items carry an error makes \<^verbatim>\<open>download\<close> return the error of the
  first item.
\<close>

theorem C10_json_mode_ignores_item_errors:
  assumes "Bool c ''json''"
    and "extractors_Extract E tr videoURL (extractor_options c) = Inr data"
    and "json_Encode E (tr @ [EvExtract videoURL (extractor_options c)]) json_encoder data = None"
  shows "fst (download E c videoURL tr) = None
       \<and> (\<forall>c'. \<not> Bool c' ''json''
              \<and> extractors_Extract E tr videoURL (extractor_options c') = Inr data
              \<and> data \<noteq> [] \<and> (\<forall>item \<in> set data. Err item \<noteq> None)
            \<longrightarrow> fst (download E c' videoURL tr) = Err (hd data)
              \<and> fst (download E c' videoURL tr) \<noteq> None)"
proof -
  have "fst (download E c videoURL tr) = None"
    using download_json[OF assms(1,2)] assms(3) by simp
  moreover have "fst (download E c' videoURL tr) = Err (hd data) \<and> fst (download E c' videoURL tr) \<noteq> None"
    if h: "\<not> Bool c' ''json''" "extractors_Extract E tr videoURL (extractor_options c') = Inr data"
      "data \<noteq> []" "\<forall>item \<in> set data. Err item \<noteq> None" for c'
  proof -
    from h(3) obtain item rest where d: "data = item # rest" by (cases data) auto
    with h(4) obtain e where e: "Err item = Some e" by auto
    from download_normal[OF h(1,2)] d e show ?thesis by simp
  qed
  ultimately show ?thesis by blast
qed

theorem C10_json_mode_witness:
  "Bool (example_Context [''mixed''] True [] []) ''json''
   \<and> extractors_Extract (example_env False) [] ''mixed''
        (extractor_options (example_Context [''mixed''] True [] [])) = Inr example_items
   \<and> Err (example_items ! 1) = Some (ForeignError ''item 2'')
   \<and> fst (download (example_env False) (example_Context [''mixed''] True [] []) ''mixed'' []) = None"
proof -
  have j: "Bool (example_Context [''mixed''] True [] []) ''json''"
    by (simp add: example_Context_def)
  have x: "extractors_Extract (example_env False) [] ''mixed''
        (extractor_options (example_Context [''mixed''] True [] [])) = Inr example_items"
    by (simp add: example_env_def)
  have w: "json_Encode (example_env False)
        ([] @ [EvExtract ''mixed'' (extractor_options (example_Context [''mixed''] True [] []))])
        json_encoder example_items = None"
    by (simp add: example_env_def)
  have i: "Err (example_items ! 1) = Some (ForeignError ''item 2'')"
    by (simp add: example_items_def)
  from C10_json_mode_ignores_item_errors[OF j x w] j x i show ?thesis by simp
qed

text \<open>
  C6. When the work list is empty after the aggregation, \<^verbatim>\<open>Action\<close> returns the error
  \<^verbatim>\<open>too few arguments\<close>, which is not the \<^verbatim>\<open>nil\<close> of a successful run. Nothing has happened by
  then but the version banner of debug mode: no options were set, and no extraction,
  serialization or download was called.
\<close>

theorem C6_empty_work_list_is_fatal:
  assumes "aggregate E c = Inr []"
  shows "fst (Action E c tr) = Some (errors_New ''too few arguments'')
       \<and> fst (Action E c tr) \<noteq> None
       \<and> exit_status (fst (Action E c tr)) \<noteq> Some 0
       \<and> snd (Action E c tr) = (if Bool c ''debug'' then tr @ [EvVersionPrinter] else tr)
       \<and> filter is_target_event (snd (Action E c tr)) = filter is_target_event tr"
  using assms
  by (simp add: Action_def Let_def errors_New_def exit_status_def is_target_event_def)

theorem C6_empty_work_list_witness:
  "aggregate (example_env False) (example_Context [] False [] []) = Inr []
   \<and> Action (example_env False) (example_Context [] False [] []) []
        = (Some (errors_New ''too few arguments''), [])"
proof -
  have h: "aggregate (example_env False) (example_Context [] False [] []) = Inr []"
    by (simp add: aggregate_def example_Context_def)
  have d: "\<not> Bool (example_Context [] False [] []) ''debug''"
    by (simp add: example_Context_def)
  from C6_empty_work_list_is_fatal[OF h, of "[]"] h d show ?thesis
    by (simp add: prod_eq_iff)
qed

text \<open>
  C1. The batch makes one extraction call for every target of the list, in the order of
  the list, whatever the outcomes of the targets before it (so also for every non-empty
  list). What it prints is, for every failing target in order, the line naming the
  target and the line with its error. It returns \<^verbatim>\<open>nil\<close> (exit status 0) when every target's
  outcome is a success, and \<^verbatim>\<open>cli.Exit("", 1)\<close> (exit status 1) when at least one is a
  failure.
\<close>

theorem C1_batch_attempts_every_target:
  "(\<exists>added. snd (run_batch E c targets tr) = tr @ added
       \<and> filter is_Extract added = map (\<lambda>videoURL. EvExtract videoURL (extractor_options c)) targets
       \<and> filter is_Print added = concat (map diagnostic (target_outcomes E c targets tr)))
   \<and> map fst (target_outcomes E c targets tr) = targets
   \<and> ((\<forall>out \<in> set (target_outcomes E c targets tr). snd out = None)
        \<longrightarrow> fst (run_batch E c targets tr) = None
          \<and> exit_status (fst (run_batch E c targets tr)) = Some 0)
   \<and> ((\<exists>out \<in> set (target_outcomes E c targets tr). snd out \<noteq> None)
        \<longrightarrow> fst (run_batch E c targets tr) = Some (cli_Exit [] 1)
          \<and> exit_status (fst (run_batch E c targets tr)) = Some 1)"
proof -
  obtain isErr tr' where d: "download_all E c targets (False, tr) = (isErr, tr')"
    by (cases "download_all E c targets (False, tr)")
  have r: "run_batch E c targets tr = (if isErr then Some (cli_Exit [] 1) else None, tr')"
    by (simp add: run_batch_def d)
  have f: "isErr = (\<exists>out \<in> set (target_outcomes E c targets tr). snd out \<noteq> None)"
    using download_all_flag[of E c targets False tr] d by simp
  have t: "\<exists>added. tr' = tr @ added
       \<and> filter is_Extract added = map (\<lambda>videoURL. EvExtract videoURL (extractor_options c)) targets
       \<and> filter is_Print added = concat (map diagnostic (target_outcomes E c targets tr))"
    using download_all_trace[of E c targets False tr] d by simp
  have ok: "(\<forall>out \<in> set (target_outcomes E c targets tr). snd out = None)
        \<longrightarrow> fst (run_batch E c targets tr) = None
          \<and> exit_status (fst (run_batch E c targets tr)) = Some 0"
    using r f by (auto simp: exit_status_def)
  have ko: "(\<exists>out \<in> set (target_outcomes E c targets tr). snd out \<noteq> None)
        \<longrightarrow> fst (run_batch E c targets tr) = Some (cli_Exit [] 1)
          \<and> exit_status (fst (run_batch E c targets tr)) = Some 1"
    using r f by (auto simp: exit_status_def cli_Exit_def)
  from t r have "\<exists>added. snd (run_batch E c targets tr) = tr @ added
       \<and> filter is_Extract added = map (\<lambda>videoURL. EvExtract videoURL (extractor_options c)) targets
       \<and> filter is_Print added = concat (map diagnostic (target_outcomes E c targets tr))"
    by simp
  with ok ko target_outcomes_targets[of E c targets tr] show ?thesis by blast
qed

lemma example_download_good:
  "download (example_env False) (example_Context args False ck fl) ''good'' tr =
     (None, tr @ [EvExtract ''good'' (extractor_options (example_Context args False ck fl)),
                  EvDownload (downloader_options (example_Context args False ck fl))
                    \<lparr> Err = None, Payload = 5 \<rparr>])"
proof -
  have j: "\<not> Bool (example_Context args False ck fl) ''json''"
    by (simp add: example_Context_def)
  have x: "extractors_Extract (example_env False) tr ''good''
             (extractor_options (example_Context args False ck fl)) = Inr [\<lparr> Err = None, Payload = 5 \<rparr>]"
    by (simp add: example_env_def)
  have d: "downloader_Download (example_env False) tr' opts \<lparr> Err = None, Payload = 5 \<rparr> = None" for tr' opts
    by (simp add: example_env_def)
  from download_normal[OF j x] d show ?thesis by (simp add: valid_items_def)
qed

lemma example_download_bad:
  "download (example_env False) (example_Context args False ck fl) ''bad'' tr =
     (Some (ForeignError ''extract''),
      tr @ [EvExtract ''bad'' (extractor_options (example_Context args False ck fl))])"
  by (rule download_extract_failure) (simp add: example_env_def)

theorem C1_batch_witness:
  "target_outcomes (example_env False) (example_Context [''bad'', ''good''] False [] [])
       [''bad'', ''good''] []
     = [(''bad'', Some (ForeignError ''extract'')), (''good'', None)]
   \<and> fst (run_batch (example_env False) (example_Context [''bad'', ''good''] False [] [])
            [''bad'', ''good''] []) = Some (cli_Exit [] 1)
   \<and> exit_status (fst (run_batch (example_env False) (example_Context [''bad'', ''good''] False [] [])
            [''bad'', ''good''] [])) = Some 1
   \<and> target_outcomes (example_env False) (example_Context [''good''] False [] []) [''good''] []
     = [(''good'', None)]
   \<and> exit_status (fst (run_batch (example_env False) (example_Context [''good''] False [] [])
            [''good''] [])) = Some 0"
proof -
  have o: "target_outcomes (example_env False) (example_Context [''bad'', ''good''] False [] [])
       [''bad'', ''good''] [] = [(''bad'', Some (ForeignError ''extract'')), (''good'', None)]"
    by (simp add: example_download_good example_download_bad)
  have o': "target_outcomes (example_env False) (example_Context [''good''] False [] []) [''good''] []
     = [(''good'', None)]"
    by (simp add: example_download_good)
  have b: "\<exists>out \<in> set (target_outcomes (example_env False)
       (example_Context [''bad'', ''good''] False [] []) [''bad'', ''good''] []). snd out \<noteq> None"
    unfolding o by simp
  have g: "\<forall>out \<in> set (target_outcomes (example_env False)
       (example_Context [''good''] False [] []) [''good''] []). snd out = None"
    unfolding o' by simp
  from C1_batch_attempts_every_target[of "example_env False"
         "example_Context [''bad'', ''good''] False [] []" "[''bad'', ''good'']" "[]"] b
  have 1: "fst (run_batch (example_env False) (example_Context [''bad'', ''good''] False [] [])
            [''bad'', ''good''] []) = Some (cli_Exit [] 1)
     \<and> exit_status (fst (run_batch (example_env False) (example_Context [''bad'', ''good''] False [] [])
            [''bad'', ''good''] [])) = Some 1"
    by blast
  from C1_batch_attempts_every_target[of "example_env False"
         "example_Context [''good''] False [] []" "[''good'']" "[]"] g
  have 2: "exit_status (fst (run_batch (example_env False) (example_Context [''good''] False [] [])
            [''good''] [])) = Some 0"
    by blast
  from o o' 1 2 show ?thesis by blast
qed

text \<open>
  C2, as the claim states it, fails in json mode: there the extraction of the target
  \<^verbatim>\<open>mixed\<close> succeeds with four items, three of which would fail, and \<^verbatim>\<open>download\<close> returns no
  error and attempts no item.
\<close>

theorem C2_json_mode_counterexample:
  "extractors_Extract (example_env False) [] ''mixed''
      (extractor_options (example_Context [''mixed''] True [] [])) = Inr example_items
   \<and> item_outcomes (example_env False) (downloader_options (example_Context [''mixed''] True [] []))
        [EvExtract ''mixed'' (extractor_options (example_Context [''mixed''] True [] []))] example_items
      = [None, Some (ForeignError ''item 2''), Some (ForeignError ''download''),
         Some (ForeignError ''item 4'')]
   \<and> download (example_env False) (example_Context [''mixed''] True [] []) ''mixed'' []
      = (None, [EvExtract ''mixed'' (extractor_options (example_Context [''mixed''] True [] [])),
                EvEncode json_encoder example_items])"
proof -
  have j: "Bool (example_Context [''mixed''] True [] []) ''json''"
    by (simp add: example_Context_def)
  have x: "extractors_Extract (example_env False) [] ''mixed''
        (extractor_options (example_Context [''mixed''] True [] [])) = Inr example_items"
    by (simp add: example_env_def)
  have o: "item_outcomes (example_env False) opts tr' example_items
      = [None, Some (ForeignError ''item 2''), Some (ForeignError ''download''),
         Some (ForeignError ''item 4'')]" for opts tr'
    by (simp add: example_items_def example_env_def)
  have w: "json_Encode (example_env False) tr' json_encoder example_items = None" for tr'
    by (simp add: example_env_def)
  from download_json[OF j x] w x o show ?thesis by simp
qed

text \<open>
  C2, amended. When json mode is off and the extraction of a target succeeds, \<^verbatim>\<open>download\<close>
  goes through every item once, in the order of the items: an item that carries an error
  has that error as its outcome, every other item is handed to the download collaborator
  (after the downloads of the items before it) and has the collaborator's answer as its
  outcome; the calls of the collaborator are those of the items without an error of their
  own, in order, each once. \<^verbatim>\<open>download\<close> returns no error when no outcome is an error, and
  otherwise the first error among the outcomes.
\<close>

theorem C2_every_item_attempted_first_error_returned:
  assumes "\<not> Bool c ''json''"
    and "extractors_Extract E tr videoURL (extractor_options c) = Inr data"
    and "tr1 = tr @ [EvExtract videoURL (extractor_options c)]"
    and "outs = item_outcomes E (downloader_options c) tr1 data"
  shows "length outs = length data
       \<and> (\<forall>k < length data.
            outs ! k =
              (case Err (data ! k) of
                 Some e \<Rightarrow> Some e
               | None \<Rightarrow> downloader_Download E
                           (tr1 @ map (EvDownload (downloader_options c)) (valid_items (take k data)))
                           (downloader_options c) (data ! k)))
       \<and> snd (download E c videoURL tr) = tr1 @ map (EvDownload (downloader_options c)) (valid_items data)
       \<and> (fst (download E c videoURL tr) = None \<longleftrightarrow> (\<forall>r \<in> set outs. r = None))
       \<and> (\<forall>e. fst (download E c videoURL tr) = Some e \<longleftrightarrow>
              (\<exists>k < length outs. outs ! k = Some e \<and> (\<forall>j < k. outs ! j = None)))"
proof -
  have d: "download E c videoURL tr =
             (first_error outs, tr1 @ map (EvDownload (downloader_options c)) (valid_items data))"
    using download_normal[OF assms(1,2)] assms(3,4) by simp
  have 1: "length outs = length data"
    using assms(4) by (simp add: length_item_outcomes)
  have 2: "\<forall>k < length data.
            outs ! k =
              (case Err (data ! k) of
                 Some e \<Rightarrow> Some e
               | None \<Rightarrow> downloader_Download E
                           (tr1 @ map (EvDownload (downloader_options c)) (valid_items (take k data)))
                           (downloader_options c) (data ! k))"
    using assms(4) by (simp add: item_outcomes_nth)
  have 3: "fst (download E c videoURL tr) = None \<longleftrightarrow> (\<forall>r \<in> set outs. r = None)"
    using d by (simp add: first_error_None)
  have 4: "\<forall>e. fst (download E c videoURL tr) = Some e \<longleftrightarrow>
              (\<exists>k < length outs. outs ! k = Some e \<and> (\<forall>j < k. outs ! j = None))"
    using d by (simp add: first_error_Some)
  from d 1 2 3 4 show ?thesis by simp
qed

theorem C2_every_item_attempted_witness:
  "\<not> Bool (example_Context [''mixed''] False [] []) ''json''
   \<and> extractors_Extract (example_env False) [] ''mixed''
        (extractor_options (example_Context [''mixed''] False [] [])) = Inr example_items
   \<and> item_outcomes (example_env False) (downloader_options (example_Context [''mixed''] False [] []))
        ([] @ [EvExtract ''mixed'' (extractor_options (example_Context [''mixed''] False [] []))])
        example_items
      = [None, Some (ForeignError ''item 2''), Some (ForeignError ''download''),
         Some (ForeignError ''item 4'')]
   \<and> fst (download (example_env False) (example_Context [''mixed''] False [] []) ''mixed'' [])
      = Some (ForeignError ''item 2'')
   \<and> snd (download (example_env False) (example_Context [''mixed''] False [] []) ''mixed'' [])
      = [EvExtract ''mixed'' (extractor_options (example_Context [''mixed''] False [] [])),
         EvDownload (downloader_options (example_Context [''mixed''] False [] []))
           \<lparr> Err = None, Payload = 1 \<rparr>,
         EvDownload (downloader_options (example_Context [''mixed''] False [] []))
           \<lparr> Err = None, Payload = 3 \<rparr>]"
proof -
  have j: "\<not> Bool (example_Context [''mixed''] False [] []) ''json''"
    by (simp add: example_Context_def)
  have x: "extractors_Extract (example_env False) [] ''mixed''
        (extractor_options (example_Context [''mixed''] False [] [])) = Inr example_items"
    by (simp add: example_env_def)
  have o: "item_outcomes (example_env False) opts tr' example_items
      = [None, Some (ForeignError ''item 2''), Some (ForeignError ''download''),
         Some (ForeignError ''item 4'')]" for opts tr'
    by (simp add: example_items_def example_env_def)
  have v: "valid_items example_items = [\<lparr> Err = None, Payload = 1 \<rparr>, \<lparr> Err = None, Payload = 3 \<rparr>]"
    by (simp add: valid_items_def example_items_def)
  note t = C2_every_item_attempted_first_error_returned[OF j x refl refl]
  have k: "\<exists>k < length [None, Some (ForeignError ''item 2''), Some (ForeignError ''download''),
         Some (ForeignError ''item 4'')].
       [None, Some (ForeignError ''item 2''), Some (ForeignError ''download''),
         Some (ForeignError ''item 4'')] ! k = Some (ForeignError ''item 2'')
       \<and> (\<forall>j < k. [None, Some (ForeignError ''item 2''), Some (ForeignError ''download''),
         Some (ForeignError ''item 4'')] ! j = None)"
    by (rule exI[of _ 1]) simp
  from t have "fst (download (example_env False) (example_Context [''mixed''] False [] []) ''mixed'' [])
      = Some (ForeignError ''item 2'')"
    unfolding o using k by blast
  moreover from t have "snd (download (example_env False) (example_Context [''mixed''] False [] []) ''mixed'' [])
      = [EvExtract ''mixed'' (extractor_options (example_Context [''mixed''] False [] [])),
         EvDownload (downloader_options (example_Context [''mixed''] False [] []))
           \<lparr> Err = None, Payload = 1 \<rparr>,
         EvDownload (downloader_options (example_Context [''mixed''] False [] []))
           \<lparr> Err = None, Payload = 3 \<rparr>]"
    unfolding v by simp
  ultimately show ?thesis using j x o by blast
qed

text \<open>
  C9, as the claim states it, fails in json mode when the serialization fails: the
  extraction of the target \<^verbatim>\<open>empty\<close> succeeds with no item, standard output is closed,
  and \<^verbatim>\<open>download\<close> returns the error of the encoder.
\<close>

theorem C9_json_mode_counterexample:
  "Bool (example_Context [''empty''] True [] []) ''json''
   \<and> extractors_Extract (example_env True) [] ''empty''
        (extractor_options (example_Context [''empty''] True [] [])) = Inr []
   \<and> download (example_env True) (example_Context [''empty''] True [] []) ''empty'' []
      = (Some (ForeignError ''write''),
         [EvExtract ''empty'' (extractor_options (example_Context [''empty''] True [] [])),
          EvEncode json_encoder []])"
proof -
  have j: "Bool (example_Context [''empty''] True [] []) ''json''"
    by (simp add: example_Context_def)
  have x: "extractors_Extract (example_env True) [] ''empty''
        (extractor_options (example_Context [''empty''] True [] [])) = Inr []"
    by (simp add: example_env_def)
  have w: "json_Encode (example_env True) tr' json_encoder [] = Some (ForeignError ''write'')" for tr'
    by (simp add: example_env_def)
  from download_json[OF j x] w j x show ?thesis by simp
qed

text \<open>
  C9, amended. When the extraction of a target succeeds with no item, the download
  collaborator is never invoked. With json mode off \<^verbatim>\<open>download\<close> returns no error. In json
  mode it returns what the serialization of the empty result returns: no error unless
  the serialization fails.
\<close>

theorem C9_empty_extraction_is_no_failure:
  assumes "extractors_Extract E tr videoURL (extractor_options c) = Inr []"
  shows "filter is_Download (snd (download E c videoURL tr)) = filter is_Download tr
       \<and> (\<not> Bool c ''json'' \<longrightarrow>
            download E c videoURL tr = (None, tr @ [EvExtract videoURL (extractor_options c)]))
       \<and> (Bool c ''json'' \<longrightarrow>
            download E c videoURL tr =
              (json_Encode E (tr @ [EvExtract videoURL (extractor_options c)]) json_encoder [],
               tr @ [EvExtract videoURL (extractor_options c), EvEncode json_encoder []]))"
proof (cases "Bool c ''json''")
  case True
  with download_json[OF True assms] show ?thesis by simp
next
  case False
  with download_normal[OF False assms] show ?thesis by (simp add: valid_items_def)
qed

theorem C9_empty_extraction_witness:
  "extractors_Extract (example_env False) [] ''empty''
        (extractor_options (example_Context [''empty''] False [] [])) = Inr []
   \<and> \<not> Bool (example_Context [''empty''] False [] []) ''json''
   \<and> download (example_env False) (example_Context [''empty''] False [] []) ''empty'' []
      = (None, [EvExtract ''empty'' (extractor_options (example_Context [''empty''] False [] []))])"
proof -
  have x: "extractors_Extract (example_env False) [] ''empty''
        (extractor_options (example_Context [''empty''] False [] [])) = Inr []"
    by (simp add: example_env_def)
  have j: "\<not> Bool (example_Context [''empty''] False [] []) ''json''"
    by (simp add: example_Context_def)
  from C9_empty_extraction_is_no_failure[OF x] x j show ?thesis by simp
qed

text \<open>
  C5. The cookie resolver returns the empty cookie unchanged. For a non-empty value that
  names an existing entry (\<^verbatim>\<open>os.Stat\<close> succeeds) whose contents can be read, it returns the
  contents with the leading and trailing white space stripped: the result neither starts
  nor ends with a white space rune, and the contents are the result between two runs of
  white space runes; the contents \<^verbatim>\<open>"  token=xyz\n"\<close> give \<^verbatim>\<open>"token=xyz"\<close>. Any other value
  is returned unchanged. A read error on an existing path is returned by the resolver,
  and the \<^verbatim>\<open>Action\<close> then ends with an error before it sets the request options or calls
  an extraction, serialization or download; on a non-empty work list that error is the
  read error.
\<close>

theorem C5_cookie_resolver:
  "resolve_cookie E [] = Inr []
   \<and> (\<forall>data. cookie \<noteq> [] \<and> os_Stat E cookie = None \<and> os_ReadFile E cookie = Inr data \<longrightarrow>
          resolve_cookie E cookie = Inr (strings_TrimSpace data)
        \<and> (\<forall>r \<in> set spaceRunes.
              \<not> prefix r (strings_TrimSpace data) \<and> \<not> suffix r (strings_TrimSpace data))
        \<and> (\<exists>before after. set before \<subseteq> set spaceRunes \<and> set after \<subseteq> set spaceRunes
              \<and> data = concat before @ strings_TrimSpace data @ concat after))
   \<and> strings_TrimSpace (''  token=xyz'' @ [CHR 0x0A]) = ''token=xyz''
   \<and> (os_Stat E cookie \<noteq> None \<longrightarrow> resolve_cookie E cookie = Inr cookie)
   \<and> (\<forall>err. cookie \<noteq> [] \<and> os_Stat E cookie = None \<and> os_ReadFile E cookie = Inl err \<longrightarrow>
          resolve_cookie E cookie = Inl err)
   \<and> (\<forall>err. String c ''cookie'' \<noteq> [] \<and> os_Stat E (String c ''cookie'') = None
            \<and> os_ReadFile E (String c ''cookie'') = Inl err \<longrightarrow>
          fst (Action E c tr) \<noteq> None
        \<and> snd (Action E c tr) = (if Bool c ''debug'' then tr @ [EvVersionPrinter] else tr)
        \<and> filter is_target_event (snd (Action E c tr)) = filter is_target_event tr
        \<and> (\<forall>targets. aggregate E c = Inr targets \<and> targets \<noteq> [] \<longrightarrow>
              fst (Action E c tr) = Some err))"
proof -
  have 1: "resolve_cookie E [] = Inr []"
    by (simp add: resolve_cookie_def)
  have 2: "resolve_cookie E cookie = Inr (strings_TrimSpace data)"
    if "cookie \<noteq> []" "os_Stat E cookie = None" "os_ReadFile E cookie = Inr data" for data
    using that by (simp add: resolve_cookie_def)
  have 3: "os_Stat E cookie \<noteq> None \<longrightarrow> resolve_cookie E cookie = Inr cookie"
    by (auto simp: resolve_cookie_def)
  have 4: "resolve_cookie E ck = Inl err"
    if "ck \<noteq> []" "os_Stat E ck = None" "os_ReadFile E ck = Inl err" for err ck
    using that by (simp add: resolve_cookie_def)
  have 5: "fst (Action E c tr) \<noteq> None
        \<and> snd (Action E c tr) = (if Bool c ''debug'' then tr @ [EvVersionPrinter] else tr)
        \<and> filter is_target_event (snd (Action E c tr)) = filter is_target_event tr
        \<and> (\<forall>targets. aggregate E c = Inr targets \<and> targets \<noteq> [] \<longrightarrow>
              fst (Action E c tr) = Some err)"
    if h: "String c ''cookie'' \<noteq> []" "os_Stat E (String c ''cookie'') = None"
      "os_ReadFile E (String c ''cookie'') = Inl err" for err
  proof -
    have r: "resolve_cookie E (String c ''cookie'') = Inl err"
      using 4[OF h] .
    then have a: "fst (Action E c tr) \<noteq> None
        \<and> snd (Action E c tr) = (if Bool c ''debug'' then tr @ [EvVersionPrinter] else tr)"
      using Action_no_batch[of E c undefined err tr] by simp
    then have b: "filter is_target_event (snd (Action E c tr)) = filter is_target_event tr"
      by (simp add: is_target_event_def)
    have "fst (Action E c tr) = Some err"
      if "aggregate E c = Inr targets" "targets \<noteq> []" for targets
      using that r by (cases targets) (simp_all add: Action_def Let_def)
    with a b show ?thesis by blast
  qed
  from 1 2 3 4 5 strings_TrimSpace_strips TrimSpace_example show ?thesis
    by (intro conjI allI impI) blast+
qed

theorem C5_cookie_resolver_witness:
  "resolve_cookie (example_env False) ''cookies.txt'' = Inr ''token=xyz''
   \<and> resolve_cookie (example_env False) ''token=xyz'' = Inr ''token=xyz''
   \<and> resolve_cookie (example_env False) ''locked.txt'' = Inl (ForeignError ''read'')
   \<and> Action (example_env False) (example_Context [''good''] False ''locked.txt'' []) []
       = (Some (ForeignError ''read''), [])"
proof -
  note t = C5_cookie_resolver[of "example_env False" _
             "example_Context [''good''] False ''locked.txt'' []" "[]"]
  have s1: "os_Stat (example_env False) ''cookies.txt'' = None"
    and r1: "os_ReadFile (example_env False) ''cookies.txt'' = Inr (''  token=xyz'' @ [CHR 0x0A])"
    and s2: "os_Stat (example_env False) ''token=xyz'' \<noteq> None"
    and s3: "os_Stat (example_env False) ''locked.txt'' = None"
    and r3: "os_ReadFile (example_env False) ''locked.txt'' = Inl (ForeignError ''read'')"
    by (simp_all add: example_env_def)
  have ck: "String (example_Context [''good''] False ''locked.txt'' []) ''cookie'' = ''locked.txt''"
    and db: "\<not> Bool (example_Context [''good''] False ''locked.txt'' []) ''debug''"
    and ag: "aggregate (example_env False) (example_Context [''good''] False ''locked.txt'' []) = Inr [''good'']"
    by (simp_all add: example_Context_def aggregate_def)
  have a: "resolve_cookie (example_env False) ''cookies.txt'' = Inr ''token=xyz''"
    using t[of "''cookies.txt''"] s1 r1 by simp
  have b: "resolve_cookie (example_env False) ''token=xyz'' = Inr ''token=xyz''"
    using t[of "''token=xyz''"] s2 by blast
  have c: "resolve_cookie (example_env False) ''locked.txt'' = Inl (ForeignError ''read'')"
    using t[of "''locked.txt''"] s3 r3 by simp
  have d: "fst (Action (example_env False) (example_Context [''good''] False ''locked.txt'' []) [])
             = Some (ForeignError ''read'')
         \<and> snd (Action (example_env False) (example_Context [''good''] False ''locked.txt'' []) []) = []"
    using t[of "''locked.txt''"] s3 r3 ck db ag by simp
  from a b c d show ?thesis by (simp add: prod_eq_iff)
qed

text \<open>
  C7. Without an input file the work list is the positional arguments. With an input
  file that opens it is the positional arguments, in their order, followed by what the
  range expansion collaborator returns for the file, in its order. When the file does not
  open, the error of \<^verbatim>\<open>os.Open\<close> ends the \<^verbatim>\<open>Action\<close> before any target is processed. Nothing
  is removed from the work list: the extraction calls of the run are those of the
  elements of the work list, one for each, in order, repeated identifiers included.
\<close>

theorem C7_work_list_order_and_multiplicity:
  "(String c ''file'' = [] \<longrightarrow> aggregate E c = Inr (Args c))
   \<and> (\<forall>f. String c ''file'' \<noteq> [] \<and> os_Open E (String c ''file'') = Inr f \<longrightarrow>
          aggregate E c =
            Inr (Args c @ utils_ParseInputFile E f (String c ''items'')
                            (sint (Uint c ''start'')) (sint (Uint c ''end''))))
   \<and> (\<forall>err. String c ''file'' \<noteq> [] \<and> os_Open E (String c ''file'') = Inl err \<longrightarrow>
          aggregate E c = Inl err
        \<and> Action E c tr = (Some err, if Bool c ''debug'' then tr @ [EvVersionPrinter] else tr)
        \<and> filter is_target_event (snd (Action E c tr)) = filter is_target_event tr)
   \<and> (\<forall>targets cookie.
          aggregate E c = Inr targets \<and> resolve_cookie E (String c ''cookie'') = Inr cookie \<longrightarrow>
          filter is_Extract (snd (Action E c tr)) =
            filter is_Extract tr @ map (\<lambda>videoURL. EvExtract videoURL (extractor_options c)) targets)"
proof -
  have 1: "String c ''file'' = [] \<longrightarrow> aggregate E c = Inr (Args c)"
    by (simp add: aggregate_def)
  have 2: "aggregate E c =
            Inr (Args c @ utils_ParseInputFile E f (String c ''items'')
                            (sint (Uint c ''start'')) (sint (Uint c ''end'')))"
    if "String c ''file'' \<noteq> []" "os_Open E (String c ''file'') = Inr f" for f
    using that by (simp add: aggregate_def)
  have 3: "aggregate E c = Inl err
        \<and> Action E c tr = (Some err, if Bool c ''debug'' then tr @ [EvVersionPrinter] else tr)
        \<and> filter is_target_event (snd (Action E c tr)) = filter is_target_event tr"
    if "String c ''file'' \<noteq> []" "os_Open E (String c ''file'') = Inl err" for err
  proof -
    from that have a: "aggregate E c = Inl err" by (simp add: aggregate_def)
    then have "Action E c tr = (Some err, if Bool c ''debug'' then tr @ [EvVersionPrinter] else tr)"
      by (simp add: Action_def Let_def)
    with a show ?thesis by (simp add: is_target_event_def)
  qed
  have 4: "filter is_Extract (snd (Action E c tr)) =
            filter is_Extract tr @ map (\<lambda>videoURL. EvExtract videoURL (extractor_options c)) targets"
    if h: "aggregate E c = Inr targets" "resolve_cookie E (String c ''cookie'') = Inr cookie"
    for targets cookie
  proof (cases "targets = []")
    case True
    with h(1) Action_no_batch[of E c undefined undefined tr] show ?thesis by simp
  next
    case False
    from Action_batch[OF h(1) False h(2), of tr] show ?thesis
      by (simp add: run_batch_extracts)
  qed
  from 1 2 3 4 show ?thesis by blast
qed

theorem C7_work_list_witness:
  "aggregate (example_env False) (example_Context [''good'', ''good''] False [] ''urls.txt'')
     = Inr [''good'', ''good'', ''good'', ''mixed'']
   \<and> filter is_Extract
       (snd (Action (example_env False) (example_Context [''good'', ''good''] False [] ''urls.txt'') []))
     = map (\<lambda>videoURL. EvExtract videoURL
              (extractor_options (example_Context [''good'', ''good''] False [] ''urls.txt'')))
         [''good'', ''good'', ''good'', ''mixed'']
   \<and> aggregate (example_env False) (example_Context [''good''] False [] ''missing.txt'')
     = Inl (ForeignError ''open'')"
proof -
  have f: "String (example_Context [''good'', ''good''] False [] ''urls.txt'') ''file'' \<noteq> []"
    and o: "os_Open (example_env False)
              (String (example_Context [''good'', ''good''] False [] ''urls.txt'') ''file'') = Inr 7"
    and p: "utils_ParseInputFile (example_env False) 7 its st en = [''good'', ''mixed'']"
    and a: "Args (example_Context [''good'', ''good''] False [] ''urls.txt'') = [''good'', ''good'']"
    and r: "resolve_cookie (example_env False)
              (String (example_Context [''good'', ''good''] False [] ''urls.txt'') ''cookie'') = Inr []"
    for its st en
    by (simp_all add: example_Context_def example_env_def resolve_cookie_def)
  have f': "String (example_Context [''good''] False [] ''missing.txt'') ''file'' \<noteq> []"
    and o': "os_Open (example_env False)
              (String (example_Context [''good''] False [] ''missing.txt'') ''file'')
              = Inl (ForeignError ''open'')"
    by (simp_all add: example_Context_def example_env_def)
  note t = C7_work_list_order_and_multiplicity[of
             "example_Context [''good'', ''good''] False [] ''urls.txt''" "example_env False" "[]"]
  note t' = C7_work_list_order_and_multiplicity[of
             "example_Context [''good''] False [] ''missing.txt''" "example_env False" "[]"]
  have g: "aggregate (example_env False) (example_Context [''good'', ''good''] False [] ''urls.txt'')
     = Inr [''good'', ''good'', ''good'', ''mixed'']"
    using t f o p a by simp
  have x: "filter is_Extract
       (snd (Action (example_env False) (example_Context [''good'', ''good''] False [] ''urls.txt'') []))
     = map (\<lambda>videoURL. EvExtract videoURL
              (extractor_options (example_Context [''good'', ''good''] False [] ''urls.txt'')))
         [''good'', ''good'', ''good'', ''mixed'']"
    using t g r by simp
  have m: "aggregate (example_env False) (example_Context [''good''] False [] ''missing.txt'')
     = Inl (ForeignError ''open'')"
    using t' f' o' by blast
  from g x m show ?thesis by blast
qed

text \<open>
  C4. The run below has the cookie flag \<^verbatim>\<open>cookies.txt\<close>, an existing file that holds
  \<^verbatim>\<open>"  token=xyz\n"\<close>. The request options are set with the cookie read from the file,
  \<^verbatim>\<open>token=xyz\<close>; the extraction call of the target receives the flag as it was given,
  the path \<^verbatim>\<open>cookies.txt\<close>: \<^verbatim>\<open>download\<close> reads \<^verbatim>\<open>c.String("cookie")\<close> again instead of the
  resolved value.
\<close>

theorem C4_extraction_receives_the_cookie_path:
  "Action (example_env False) (example_Context [''empty''] False ''cookies.txt'' []) []
     = (None,
        [EvSetOptions (request_options (example_Context [''empty''] False ''cookies.txt'' []) ''token=xyz''),
         EvExtract ''empty'' (extractor_options (example_Context [''empty''] False ''cookies.txt'' []))])
   \<and> req_Cookie (request_options (example_Context [''empty''] False ''cookies.txt'' []) ''token=xyz'')
     = ''token=xyz''
   \<and> ext_Cookie (extractor_options (example_Context [''empty''] False ''cookies.txt'' []))
     = ''cookies.txt''"
proof -
  let ?c = "example_Context [''empty''] False ''cookies.txt'' []"
  have ag: "aggregate (example_env False) ?c = Inr [''empty'']"
    by (simp add: example_Context_def aggregate_def)
  have ck: "String ?c ''cookie'' = ''cookies.txt''" and db: "\<not> Bool ?c ''debug''"
    and j: "\<not> Bool ?c ''json''"
    by (simp_all add: example_Context_def)
  have rc: "resolve_cookie (example_env False) (String ?c ''cookie'') = Inr ''token=xyz''"
    unfolding ck by (simp add: resolve_cookie_def example_env_def TrimSpace_example[simplified])
  have x: "extractors_Extract (example_env False) tr' ''empty'' (extractor_options ?c) = Inr []" for tr'
    by (simp add: example_env_def)
  have d: "download (example_env False) ?c ''empty'' tr' = (None, tr' @ [EvExtract ''empty'' (extractor_options ?c)])"
    for tr'
    using download_normal[OF j x, of tr'] by (simp add: valid_items_def)
  have "Action (example_env False) ?c []
     = (None, [EvSetOptions (request_options ?c ''token=xyz''), EvExtract ''empty'' (extractor_options ?c)])"
    using Action_batch[OF ag _ rc, of "[]"] db
    by (simp add: run_batch_def download_target_def d)
  moreover have "req_Cookie (request_options ?c ''token=xyz'') = ''token=xyz''"
    by (simp add: request_options_def)
  moreover have "ext_Cookie (extractor_options ?c) = ''cookies.txt''"
    by (simp add: extractor_options_def ck)
  ultimately show ?thesis by blast
qed

end
